theory Spec2Isabelle
  imports Complex_Main "HOL-Library.Multiset" "HOL-Library.Product_Lexorder"
begin

section \<open>Python strings\<close>

text \<open>
  A Python \<open>str\<close> is a sequence of Unicode code points, so it is modelled as a list of
  natural numbers; \<open>py ''abc''\<close> is the \<open>str\<close> with the given ASCII characters.
  Scope of the string model: \<open>lower\<close> maps the ASCII letters only and the digits of
  \<open>float\<close> and of the regular expression are the ASCII digits only (Python also knows
  the other Unicode cased letters and decimal digits).
\<close>

type_synonym pystr = "nat list"

definition py :: "string \<Rightarrow> pystr" where
  "py s = map of_char s"

definition lower_char :: "nat \<Rightarrow> nat" where
  "lower_char c = (if 65 \<le> c \<and> c \<le> 90 then c + 32 else c)"

definition lower :: "pystr \<Rightarrow> pystr" where
  "lower s = map lower_char s"

text \<open>The code points for which \<open>str.isspace\<close> holds; \<open>strip()\<close> removes them at both ends.\<close>

definition isspace :: "nat \<Rightarrow> bool" where
  "isspace c \<longleftrightarrow>
     (9 \<le> c \<and> c \<le> 13) \<or> (28 \<le> c \<and> c \<le> 32) \<or> c = 133 \<or> c = 160 \<or> c = 5760 \<or>
     (8192 \<le> c \<and> c \<le> 8202) \<or> c = 8232 \<or> c = 8233 \<or> c = 8239 \<or> c = 8287 \<or> c = 12288"

definition strip :: "pystr \<Rightarrow> pystr" where
  "strip s = rev (dropWhile isspace (rev (dropWhile isspace s)))"

fun startswith :: "pystr \<Rightarrow> pystr \<Rightarrow> bool" where
  "startswith s [] = True"
| "startswith [] (p # ps) = False"
| "startswith (c # cs) (p # ps) = (c = p \<and> startswith cs ps)"

text \<open>\<open>contains p s\<close> is Python's \<open>p in s\<close> on strings: \<open>p\<close> occurs in \<open>s\<close> as a substring.\<close>

fun contains :: "pystr \<Rightarrow> pystr \<Rightarrow> bool" where
  "contains p [] = (p = [])"
| "contains p (c # cs) = (startswith (c # cs) p \<or> contains p cs)"

text \<open>\<open>s.replace(c, new)\<close> for a one-character string \<open>c\<close>, the only use the source makes.\<close>

fun replace :: "nat \<Rightarrow> pystr \<Rightarrow> pystr \<Rightarrow> pystr" where
  "replace old new [] = []"
| "replace old new (c # cs) = (if c = old then new @ replace old new cs else c # replace old new cs)"

fun join :: "pystr \<Rightarrow> pystr list \<Rightarrow> pystr" where
  "join sep [] = []"
| "join sep [x] = x"
| "join sep (x # y # ys) = x @ sep @ join sep (y # ys)"

section \<open>Python floats and \<open>float(str)\<close>\<close>

text \<open>
  A float is modelled by the exact decimal value of the text it is parsed from, or one of
  the three special values; IEEE rounding, overflow and underflow are not modelled.
\<close>

datatype pyfloat = Finite rat | PosInf | NegInf | NaN

fun fl_neg :: "pyfloat \<Rightarrow> pyfloat" where
  "fl_neg (Finite r) = Finite (- r)"
| "fl_neg PosInf = NegInf"
| "fl_neg NegInf = PosInf"
| "fl_neg NaN = NaN"

fun fl_abs :: "pyfloat \<Rightarrow> pyfloat" where
  "fl_abs (Finite r) = Finite \<bar>r\<bar>"
| "fl_abs PosInf = PosInf"
| "fl_abs NegInf = PosInf"
| "fl_abs NaN = NaN"

text \<open>\<open>x < 0\<close> and \<open>x > 0\<close> on floats; both are false for NaN.\<close>

fun is_negative :: "pyfloat \<Rightarrow> bool" where
  "is_negative (Finite r) = (r < 0)"
| "is_negative NegInf = True"
| "is_negative _ = False"

fun is_positive :: "pyfloat \<Rightarrow> bool" where
  "is_positive (Finite r) = (0 < r)"
| "is_positive PosInf = True"
| "is_positive _ = False"

definition isdigit :: "nat \<Rightarrow> bool" where
  "isdigit c \<longleftrightarrow> 48 \<le> c \<and> c \<le> 57"

definition decimal :: "pystr \<Rightarrow> nat" where
  "decimal ds = foldl (\<lambda>a d. 10 * a + (d - 48)) 0 ds"

text \<open>
  CPython's rule for \<open>_\<close> in numeric text: an underscore must stand between two digits.
  \<open>prev\<close> is the character before the current position (0 at the start).
\<close>

fun underscores_ok :: "nat \<Rightarrow> pystr \<Rightarrow> bool" where
  "underscores_ok prev [] = (prev \<noteq> 95)"
| "underscores_ok prev (c # cs) =
     (if c = 95 then isdigit prev \<and> underscores_ok c cs
      else (prev = 95 \<longrightarrow> isdigit c) \<and> underscores_ok c cs)"

text \<open>The exponent part: empty, or \<open>e\<close>/\<open>E\<close>, an optional sign and at least one digit.\<close>

definition exponent :: "pystr \<Rightarrow> int option" where
  "exponent s =
     (case s of
        [] \<Rightarrow> Some 0
      | c # r \<Rightarrow>
          if c = 101 \<or> c = 69 then
            (let (negative, ds) =
               (case r of
                  [] \<Rightarrow> (False, [])
                | x # r' \<Rightarrow> if x = 45 then (True, r') else if x = 43 then (False, r') else (False, r))
             in if ds \<noteq> [] \<and> list_all isdigit ds
                then Some (if negative then - int (decimal ds) else int (decimal ds))
                else None)
          else None)"

text \<open>
  An unsigned number: digits, an optional point with digits, at least one digit on one
  side of the point, then the exponent part, and nothing after it.
\<close>

definition floatnumber :: "pystr \<Rightarrow> rat option" where
  "floatnumber s =
     (let ip = takeWhile isdigit s;
          r1 = dropWhile isdigit s;
          (fp, r2) =
            (case r1 of
               [] \<Rightarrow> ([], [])
             | c # r \<Rightarrow> if c = 46 then (takeWhile isdigit r, dropWhile isdigit r) else ([], r1))
      in if ip = [] \<and> fp = [] then None
         else (case exponent r2 of
                 None \<Rightarrow> None
               | Some e \<Rightarrow>
                   (let m = of_nat (decimal ip) + of_nat (decimal fp) / 10 ^ length fp
                    in Some (if 0 \<le> e then m * 10 ^ nat e else m / 10 ^ nat (- e)))))"

definition absfloatvalue :: "pystr \<Rightarrow> pyfloat option" where
  "absfloatvalue s =
     (if lower s = py ''inf'' \<or> lower s = py ''infinity'' then Some PosInf
      else if lower s = py ''nan'' then Some NaN
      else if underscores_ok 0 s then map_option Finite (floatnumber (filter (\<lambda>c. c \<noteq> 95) s))
      else None)"

text \<open>
  \<open>float\<close> ignores white space at both ends of its argument: every white-space character
  but the four separators 28 to 31, which \<open>strip()\<close> removes and \<open>float\<close> rejects.
\<close>

definition float_space :: "nat \<Rightarrow> bool" where
  "float_space c \<longleftrightarrow> isspace c \<and> \<not> (28 \<le> c \<and> c \<le> 31)"

definition float_strip :: "pystr \<Rightarrow> pystr" where
  "float_strip s = rev (dropWhile float_space (rev (dropWhile float_space s)))"

text \<open>\<open>py_float s\<close> is \<open>float(s)\<close>; \<open>None\<close> stands for the \<open>ValueError\<close> it raises.\<close>

definition py_float :: "pystr \<Rightarrow> pyfloat option" where
  "py_float s =
     (case float_strip s of
        [] \<Rightarrow> None
      | c # r \<Rightarrow>
          if c = 45 then map_option fl_neg (absfloatvalue r)
          else if c = 43 then absfloatvalue r
          else absfloatvalue (c # r))"

section \<open>Data frames\<close>

text \<open>
  A cell is a string or missing (\<open>None\<close> stands for pandas' NaN/None). A frame is its
  column labels and its rows, each row holding one cell per column. Numeric cell types
  are outside the model: cells are text, as a frame built from string records has them.
\<close>

type_synonym cell = "pystr option"

record dataframe =
  columns :: "pystr list"
  rows :: "cell list list"

text \<open>
  The frames the model covers: column labels are pairwise distinct (pandas returns a
  sub-frame, not a series, for a duplicated label) and every row has one cell per column.
\<close>

definition wf_df :: "dataframe \<Rightarrow> bool" where
  "wf_df df \<longleftrightarrow> distinct (columns df) \<and> list_all (\<lambda>r. length r = length (columns df)) (rows df)"

text \<open>
  \<open>row[col]\<close>: the cell of a row under a column label. Every label the processor looks up
  is one of the frame's columns; for any other label the model gives a missing cell.
\<close>

definition get :: "pystr list \<Rightarrow> cell list \<Rightarrow> pystr \<Rightarrow> cell" where
  "get cols row col = (case map_of (zip cols row) col of Some v \<Rightarrow> v | None \<Rightarrow> None)"

text \<open>\<open>df[col]\<close>: the series of a column.\<close>

definition series :: "dataframe \<Rightarrow> pystr \<Rightarrow> cell list" where
  "series df col = map (\<lambda>row. get (columns df) row col) (rows df)"

text \<open>\<open>str(value)\<close> of a cell; a missing cell prints as \<open>nan\<close>.\<close>

definition str :: "cell \<Rightarrow> pystr" where
  "str v = (case v of None \<Rightarrow> py ''nan'' | Some s \<Rightarrow> s)"

section \<open>The CSV processor\<close>

definition date_patterns :: "pystr list" where
  "date_patterns = map py
     [''date'', ''transaction date'', ''post date'', ''posting date'',
      ''trans date'', ''transaction_date'', ''posted date'', ''value date'']"

definition amount_patterns :: "pystr list" where
  "amount_patterns = map py
     [''amount'', ''transaction amount'', ''debit'', ''credit'',
      ''value'', ''transaction_amount'', ''sum'', ''total'']"

definition description_patterns :: "pystr list" where
  "description_patterns = map py
     [''description'', ''memo'', ''details'', ''transaction details'',
      ''merchant'', ''name'', ''payee'', ''reference'', ''transaction_description'',
      ''narrative'', ''transaction type'', ''category'']"

text \<open>Truth value of an optional string: \<open>None\<close> and the empty string are false.\<close>

definition truthy :: "pystr option \<Rightarrow> bool" where
  "truthy v = (case v of None \<Rightarrow> False | Some s \<Rightarrow> s \<noteq> [])"

text \<open>The inner loop of \<open>_find_column\<close>: some pattern occurs in the column name.\<close>

definition matches :: "pystr list \<Rightarrow> pystr \<Rightarrow> bool" where
  "matches patterns col = list_ex (\<lambda>pattern. contains (lower pattern) (strip (lower col))) patterns"

fun find_column :: "pystr list \<Rightarrow> pystr list \<Rightarrow> pystr option" where
  "find_column [] patterns = None"
| "find_column (col # cols) patterns =
     (if matches patterns col then Some col else find_column cols patterns)"

definition debit_side :: "pystr \<Rightarrow> bool" where
  "debit_side col =
     (let col_lower = strip (lower col)
      in contains (py ''debit'') col_lower \<or> contains (py ''withdrawal'') col_lower
         \<or> contains (py ''outgoing'') col_lower)"

definition credit_side :: "pystr \<Rightarrow> bool" where
  "credit_side col =
     (let col_lower = strip (lower col)
      in contains (py ''credit'') col_lower \<or> contains (py ''deposit'') col_lower
         \<or> contains (py ''incoming'') col_lower)"

text \<open>The second loop of \<open>_find_amount_column\<close>, on the pair \<open>(debit_col, credit_col)\<close>.\<close>

fun scan_debit_credit :: "pystr list \<Rightarrow> pystr option \<times> pystr option \<Rightarrow> pystr option \<times> pystr option" where
  "scan_debit_credit [] st = st"
| "scan_debit_credit (col # cols) (debit_col, credit_col) =
     (if debit_side col then scan_debit_credit cols (Some col, credit_col)
      else if credit_side col then scan_debit_credit cols (debit_col, Some col)
      else scan_debit_credit cols (debit_col, credit_col))"

datatype amount_col = Single pystr | Pair pystr pystr

definition find_amount_column :: "pystr list \<Rightarrow> amount_col option" where
  "find_amount_column cols =
     (let amount_col = find_column cols amount_patterns
      in if truthy amount_col then map_option Single amount_col
         else (case scan_debit_credit cols (None, None) of
                 (Some debit_col, Some credit_col) \<Rightarrow>
                   if debit_col \<noteq> [] \<and> credit_col \<noteq> [] then Some (Pair debit_col credit_col)
                   else map_option Single amount_col
               | _ \<Rightarrow> map_option Single amount_col))"

text \<open>
  The first loops of \<open>_find_description_columns\<close>: for each pattern in turn, every column
  whose name contains it and that is not yet selected is appended to \<open>desc_cols\<close>.
\<close>

fun add_matching :: "pystr \<Rightarrow> pystr list \<Rightarrow> pystr list \<Rightarrow> pystr list" where
  "add_matching pattern [] desc_cols = desc_cols"
| "add_matching pattern (col # cols) desc_cols =
     (if contains (lower pattern) (strip (lower col)) \<and> col \<notin> set desc_cols
      then add_matching pattern cols (desc_cols @ [col])
      else add_matching pattern cols desc_cols)"

fun explicit_columns :: "pystr list \<Rightarrow> pystr list \<Rightarrow> pystr list \<Rightarrow> pystr list" where
  "explicit_columns [] cols desc_cols = desc_cols"
| "explicit_columns (pattern # patterns) cols desc_cols =
     explicit_columns patterns cols (add_matching pattern cols desc_cols)"

text \<open>
  \<open>re.match(r'^\d+[\.\,]?\d*$', s)\<close>: digits, an optional point or comma, digits, and
  the end of the string or a final newline.
\<close>

definition looks_numeric :: "pystr \<Rightarrow> bool" where
  "looks_numeric s =
     (let r1 = dropWhile isdigit s;
          r2 = (case r1 of [] \<Rightarrow> [] | c # r \<Rightarrow> if c = 46 \<or> c = 44 then r else r1);
          r3 = dropWhile isdigit r2
      in takeWhile isdigit s \<noteq> [] \<and> (r3 = [] \<or> r3 = [10]))"

text \<open>
  The fallback loop: a column is taken when the first of its non-missing cells does not
  look like a number. (The test \<open>sample.dtype == 'object'\<close> holds for every column with a
  non-missing cell, the cells being text.)
\<close>

fun text_columns :: "dataframe \<Rightarrow> pystr list \<Rightarrow> pystr list \<Rightarrow> pystr list" where
  "text_columns df [] desc_cols = desc_cols"
| "text_columns df (col # cols) desc_cols =
     (if col \<notin> set desc_cols then
        (case take 5 (filter (\<lambda>v. v \<noteq> None) (series df col)) of
           [] \<Rightarrow> text_columns df cols desc_cols
         | first_val # _ \<Rightarrow>
             if \<not> looks_numeric (str first_val) then text_columns df cols (desc_cols @ [col])
             else text_columns df cols desc_cols)
      else text_columns df cols desc_cols)"

datatype error = ValueError pystr | IndexError

definition find_description_columns :: "dataframe \<Rightarrow> error + pystr list" where
  "find_description_columns df =
     (let desc_cols = explicit_columns description_patterns (columns df) []
      in if desc_cols \<noteq> [] then Inr desc_cols
         else (let desc_cols = text_columns df (columns df) desc_cols
               in if desc_cols \<noteq> [] then Inr desc_cols
                  else (case columns df of [] \<Rightarrow> Inl IndexError | col # _ \<Rightarrow> Inr [col])))"

text \<open>The inner loop of \<open>_combine_descriptions\<close>: the usable values of one row.\<close>

fun description_parts :: "pystr list \<Rightarrow> cell list \<Rightarrow> pystr list \<Rightarrow> pystr list" where
  "description_parts cols row [] = []"
| "description_parts cols row (col # description_cols) =
     (let val = strip (str (get cols row col))
      in if val \<noteq> [] \<and> lower val \<notin> set [py ''nan'', py ''none'', []]
         then val # description_parts cols row description_cols
         else description_parts cols row description_cols)"

definition combine_descriptions :: "dataframe \<Rightarrow> pystr list \<Rightarrow> pystr list" where
  "combine_descriptions df description_cols =
     map (\<lambda>row. let parts = description_parts (columns df) row description_cols
                in if parts \<noteq> [] then join (py '' | '') parts else py ''Unknown Transaction'')
         (rows df)"

text \<open>
  The code points in \<open>_clean_amount\<close>: 36 is \<open>$\<close>, 163 the pound sign, 8364 the euro sign,
  44 the comma, 32 the space, 40 and 41 the parentheses, 45 the minus sign.
\<close>

definition clean_amount :: "cell \<Rightarrow> pyfloat" where
  "clean_amount v =
     (case v of
        None \<Rightarrow> Finite 0
      | Some s \<Rightarrow>
          (let val_str = strip s;
               val_str = replace 8364 [] (replace 163 [] (replace 36 [] val_str));
               val_str = replace 32 [] (replace 44 [] val_str);
               val_str = (if contains (py ''('') val_str \<and> contains (py '')'') val_str
                          then py ''-'' @ replace 41 [] (replace 40 [] val_str)
                          else val_str)
           in case py_float val_str of Some x \<Rightarrow> x | None \<Rightarrow> Finite 0))"

text \<open>One row of the debit/credit branch of \<open>_process_amount\<close>.\<close>

definition reconcile :: "pyfloat \<Rightarrow> pyfloat \<Rightarrow> pyfloat" where
  "reconcile debit credit =
     (if debit \<noteq> NaN \<and> debit \<noteq> Finite 0 then fl_neg (fl_abs debit)
      else if credit \<noteq> NaN \<and> credit \<noteq> Finite 0 then fl_abs credit
      else Finite 0)"

fun pair_amounts :: "pystr list \<Rightarrow> pystr \<Rightarrow> pystr \<Rightarrow> cell list list \<Rightarrow> pyfloat list" where
  "pair_amounts cols debit_col credit_col [] = []"
| "pair_amounts cols debit_col credit_col (row # rs) =
     reconcile (clean_amount (get cols row debit_col)) (clean_amount (get cols row credit_col))
       # pair_amounts cols debit_col credit_col rs"

definition process_amount :: "dataframe \<Rightarrow> amount_col \<Rightarrow> pyfloat list" where
  "process_amount df amount_col =
     (case amount_col of
        Pair debit_col credit_col \<Rightarrow> pair_amounts (columns df) debit_col credit_col (rows df)
      | Single col \<Rightarrow> map clean_amount (series df col))"

text \<open>
  The result frame. Before \<open>dropna\<close> a row has a date or NaT (\<open>None\<close>) and an amount that
  may be NaN; \<open>dropna(subset=['date', 'amount'])\<close> keeps the rows that have both.
\<close>

record 'd transaction =
  date :: 'd
  description :: pystr
  amount :: pyfloat

fun dropna :: "('d option \<times> pystr \<times> pyfloat) list \<Rightarrow> 'd transaction list" where
  "dropna [] = []"
| "dropna ((d, s, a) # rs) =
     (case d of
        None \<Rightarrow> dropna rs
      | Some d' \<Rightarrow>
          if a = NaN then dropna rs
          else \<lparr>date = d', description = s, amount = a\<rparr> # dropna rs)"

text \<open>
  \<open>sort_values('date', ascending=False)\<close>, as an insertion sort that keeps rows of equal
  date in their order; the order pandas gives to equal dates is not relied on.
\<close>

fun insert_desc :: "('d::linorder) transaction \<Rightarrow> 'd transaction list \<Rightarrow> 'd transaction list" where
  "insert_desc x [] = [x]"
| "insert_desc x (y # ys) = (if date x < date y then y # insert_desc x ys else x # y # ys)"

definition sort_values_desc :: "('d::linorder) transaction list \<Rightarrow> 'd transaction list" where
  "sort_values_desc xs = foldr insert_desc xs []"

definition no_date_message :: pystr where
  "no_date_message = py ''Could not find date column. Please ensure CSV has a date column.''"

definition no_amount_message :: pystr where
  "no_amount_message = py ''Could not find amount column. Please ensure CSV has an amount column.''"

definition no_description_message :: pystr where
  "no_description_message =
     py ''Could not find description columns. Please ensure CSV has description/merchant info.''"

definition truthy_amount :: "amount_col option \<Rightarrow> bool" where
  "truthy_amount v = (case v of None \<Rightarrow> False | Some (Single s) \<Rightarrow> s \<noteq> [] | Some (Pair d c) \<Rightarrow> True)"

text \<open>\<open>df.columns = df.columns.str.lower().str.strip()\<close>\<close>

definition normalize_columns :: "dataframe \<Rightarrow> dataframe" where
  "normalize_columns df = df\<lparr>columns := map (\<lambda>c. strip (lower c)) (columns df)\<rparr>"

text \<open>
  \<open>process_csv\<close> on a frame (a file path is first read by pandas' \<open>read_csv\<close>, which is
  not part of the processor). \<open>to_datetime\<close> stands for \<open>pd.to_datetime(_, errors='coerce')\<close>,
  a function of the whole date series that gives each cell a date or NaT (\<open>None\<close>); it is a
  parameter, the date parser being pandas' own. The three columns are looked for before
  any of them is checked, so an error of \<open>_find_description_columns\<close> comes first.
\<close>

definition process_csv ::
  "(cell list \<Rightarrow> ('d::linorder) option list) \<Rightarrow> dataframe \<Rightarrow> error + 'd transaction list" where
  "process_csv to_datetime file_path_or_df =
     (let df = normalize_columns file_path_or_df;
          date_col = find_column (columns df) date_patterns;
          amount_col = find_amount_column (columns df)
      in case find_description_columns df of
           Inl e \<Rightarrow> Inl e
         | Inr description_cols \<Rightarrow>
             (case date_col of
                None \<Rightarrow> Inl (ValueError no_date_message)
              | Some dc \<Rightarrow>
                  if dc = [] then Inl (ValueError no_date_message)
                  else (case amount_col of
                          None \<Rightarrow> Inl (ValueError no_amount_message)
                        | Some ac \<Rightarrow>
                            if \<not> truthy_amount amount_col then Inl (ValueError no_amount_message)
                            else if description_cols = [] then Inl (ValueError no_description_message)
                            else Inr (sort_values_desc (dropna
                                   (zip (to_datetime (series df dc))
                                      (zip (combine_descriptions df description_cols)
                                           (process_amount df ac))))))))"

text \<open>
  An instance of the date parser: \<open>to_datetime\<close> on cells that are ISO dates
  \<open>YYYY-MM-DD\<close>, read as (year, month, day); every other cell is NaT in this instance.
\<close>

definition days_in_month :: "nat \<Rightarrow> nat \<Rightarrow> nat" where
  "days_in_month y m =
     (if m = 2 then (if y mod 4 = 0 \<and> (y mod 100 \<noteq> 0 \<or> y mod 400 = 0) then 29 else 28)
      else if m = 4 \<or> m = 6 \<or> m = 9 \<or> m = 11 then 30 else 31)"

definition iso_date :: "cell \<Rightarrow> (nat \<times> nat \<times> nat) option" where
  "iso_date v =
     (case v of
        None \<Rightarrow> None
      | Some s \<Rightarrow>
          (let ys = take 4 s; ms = take 2 (drop 5 s); ds = take 2 (drop 8 s)
           in if length s = 10 \<and> take 1 (drop 4 s) = py ''-'' \<and> take 1 (drop 7 s) = py ''-''
                 \<and> list_all isdigit (ys @ ms @ ds)
              then (let y = decimal ys; m = decimal ms; d = decimal ds
                    in if 1678 \<le> y \<and> y \<le> 2261 \<and> 1 \<le> m \<and> m \<le> 12 \<and> 1 \<le> d \<and> d \<le> days_in_month y m
                       then Some (y, m, d) else None)
              else None))"

definition iso_to_datetime :: "cell list \<Rightarrow> (nat \<times> nat \<times> nat) option list" where
  "iso_to_datetime cells = map iso_date cells"

section \<open>Example frames\<close>

text \<open>
  The frame of the end-to-end scenario, a statement with separate withdrawal and deposit
  columns (one row with an unreadable date, one with no entries), and its result.
\<close>

definition c1_table :: dataframe where
  "c1_table =
     \<lparr>columns = map py [''Post Date'', ''Debit'', ''Credit'', ''Memo''],
      rows = [[Some (py ''2024-01-05''), Some (py ''$45.32''), Some (py ''''), Some (py ''WHOLE FOODS'')],
              [Some (py ''2024-01-01''), Some (py ''''), Some (py ''3500.00''), Some (py ''PAYROLL'')]]\<rparr>"

definition statement_table :: dataframe where
  "statement_table =
     \<lparr>columns = map py [''Date'', ''Withdrawal'', ''Deposit'', ''Memo''],
      rows = [[Some (py ''2024-01-01''), Some (py ''''), Some (py ''3500.00''), Some (py ''PAYROLL'')],
              [Some (py ''2024-01-05''), Some (py ''$45.32''), Some (py ''''), Some (py ''WHOLE FOODS'')],
              [Some (py ''not a date''), Some (py ''12.00''), Some (py ''''), Some (py ''COFFEE'')],
              [Some (py ''2024-01-03''), None, None, None]]\<rparr>"

definition statement_out :: "(nat \<times> nat \<times> nat) transaction list" where
  "statement_out =
     [\<lparr>date = (2024, 1, 5), description = py ''WHOLE FOODS'', amount = Finite (- 45.32)\<rparr>,
      \<lparr>date = (2024, 1, 3), description = py ''Unknown Transaction'', amount = Finite 0\<rparr>,
      \<lparr>date = (2024, 1, 1), description = py ''PAYROLL'', amount = Finite 3500\<rparr>]"

text \<open>
  A frame whose description columns are not in the order of the synonym list, and a frame
  with no description column at all, neither by name nor by content.
\<close>

definition merchant_memo_table :: dataframe where
  "merchant_memo_table =
     \<lparr>columns = map py [''Date'', ''Amount'', ''Merchant'', ''Memo''],
      rows = [[Some (py ''2024-01-05''), Some (py ''4.50''), Some (py ''Starbucks''), Some (py ''  Coffee  '')]]\<rparr>"


section \<open>Strings: substrings and evaluation\<close>

lemmas str_defs = py_def lower_def lower_char_def isspace_def strip_def isdigit_def decimal_def Let_def

lemma startswith_iff: "startswith s p \<longleftrightarrow> (\<exists>b. s = p @ b)"
  by (induction s p rule: startswith.induct) auto

lemma contains_iff: "contains p s \<longleftrightarrow> (\<exists>a b. s = a @ p @ b)"
proof (induction s)
  case Nil
  then show ?case by simp
next
  case (Cons c cs)
  show ?case
  proof
    assume "contains p (c # cs)"
    then consider "startswith (c # cs) p" | "contains p cs" by auto
    then show "\<exists>a b. c # cs = a @ p @ b"
    proof cases
      case 1
      then obtain b where "c # cs = p @ b" using startswith_iff by blast
      then have "c # cs = [] @ p @ b" by simp
      then show ?thesis by blast
    next
      case 2
      then obtain a b where "cs = a @ p @ b" using Cons.IH by blast
      then have "c # cs = (c # a) @ p @ b" by simp
      then show ?thesis by blast
    qed
  next
    assume "\<exists>a b. c # cs = a @ p @ b"
    then obtain a b where ab: "c # cs = a @ p @ b" by blast
    show "contains p (c # cs)"
    proof (cases a)
      case Nil
      with ab have "startswith (c # cs) p" using startswith_iff by auto
      then show ?thesis by simp
    next
      case (Cons x a')
      with ab have "cs = a' @ p @ b" by simp
      then have "contains p cs" using Cons.IH by blast
      then show ?thesis by simp
    qed
  qed
qed

lemma matches_iff:
  "matches patterns col \<longleftrightarrow> (\<exists>p \<in> set patterns. \<exists>a b. strip (lower col) = a @ lower p @ b)"
  by (simp add: matches_def list_ex_iff contains_iff)

lemma find_column_None: "find_column cols patterns = None \<longleftrightarrow> (\<forall>c \<in> set cols. \<not> matches patterns c)"
  by (induction cols) auto

lemma find_column_Some:
  "find_column cols patterns = Some col \<longleftrightarrow>
     (\<exists>i < length cols. cols ! i = col \<and> matches patterns col \<and> (\<forall>j < i. \<not> matches patterns (cols ! j)))"
proof (induction cols)
  case Nil
  then show ?case by simp
next
  case (Cons c cs)
  show ?case
  proof (cases "matches patterns c")
    case True
    have "(\<exists>i < length (c # cs). (c # cs) ! i = col \<and> matches patterns col \<and> (\<forall>j < i. \<not> matches patterns ((c # cs) ! j))) \<longleftrightarrow> c = col"
    proof
      assume "\<exists>i < length (c # cs). (c # cs) ! i = col \<and> matches patterns col \<and> (\<forall>j < i. \<not> matches patterns ((c # cs) ! j))"
      then obtain i where i: "(c # cs) ! i = col" "\<forall>j < i. \<not> matches patterns ((c # cs) ! j)" by blast
      have "i = 0"
      proof (rule ccontr)
        assume "i \<noteq> 0"
        then have "\<not> matches patterns ((c # cs) ! 0)" using i(2) by blast
        with True show False by simp
      qed
      with i(1) show "c = col" by simp
    next
      assume "c = col"
      with True have "0 < length (c # cs) \<and> (c # cs) ! 0 = col \<and> matches patterns col \<and> (\<forall>j < 0. \<not> matches patterns ((c # cs) ! j))"
        by simp
      then show "\<exists>i < length (c # cs). (c # cs) ! i = col \<and> matches patterns col \<and> (\<forall>j < i. \<not> matches patterns ((c # cs) ! j))"
        by blast
    qed
    with True show ?thesis by simp
  next
    case False
    have "(\<exists>i < length (c # cs). (c # cs) ! i = col \<and> matches patterns col \<and> (\<forall>j < i. \<not> matches patterns ((c # cs) ! j)))
       \<longleftrightarrow> (\<exists>i < length cs. cs ! i = col \<and> matches patterns col \<and> (\<forall>j < i. \<not> matches patterns (cs ! j)))"
      (is "?L \<longleftrightarrow> ?R")
    proof
      assume ?L
      then obtain i where i: "i < length (c # cs)" "(c # cs) ! i = col" "matches patterns col"
        "\<forall>j < i. \<not> matches patterns ((c # cs) ! j)" by blast
      from i(2,3) False have "i \<noteq> 0" by (cases i) auto
      then obtain k where k: "i = Suc k" by (cases i) auto
      have "\<forall>j < k. \<not> matches patterns (cs ! j)"
      proof (intro allI impI)
        fix j assume "j < k"
        then have "Suc j < i" using k by simp
        then have "\<not> matches patterns ((c # cs) ! Suc j)" using i(4) by blast
        then show "\<not> matches patterns (cs ! j)" by simp
      qed
      with i k have "k < length cs \<and> cs ! k = col \<and> matches patterns col \<and> (\<forall>j < k. \<not> matches patterns (cs ! j))"
        by simp
      then show ?R by blast
    next
      assume ?R
      then obtain k where k: "k < length cs" "cs ! k = col" "matches patterns col"
        "\<forall>j < k. \<not> matches patterns (cs ! j)" by blast
      have "\<forall>j < Suc k. \<not> matches patterns ((c # cs) ! j)"
      proof (intro allI impI)
        fix j assume "j < Suc k"
        then show "\<not> matches patterns ((c # cs) ! j)" using False k(4) by (cases j) auto
      qed
      with k have "Suc k < length (c # cs) \<and> (c # cs) ! Suc k = col \<and> matches patterns col
          \<and> (\<forall>j < Suc k. \<not> matches patterns ((c # cs) ! j))" by simp
      then show ?L by blast
    qed
    with False Cons.IH show ?thesis by simp
  qed
qed

section \<open>Column selection by name\<close>

text \<open>
  C8. \<open>_find_column\<close> scans the columns from left to right and returns the first one whose
  lower-cased, trimmed name contains one of the synonyms as a substring; no later
  candidate is considered, and nothing is returned exactly when no column matches.
\<close>

theorem find_column_first_match:
  "(find_column cols patterns = None \<longleftrightarrow> (\<forall>c \<in> set cols. \<not> matches patterns c)) \<and>
   (find_column cols patterns = Some col \<longleftrightarrow>
      (\<exists>i < length cols. cols ! i = col \<and> matches patterns col \<and>
         (\<forall>j < i. \<not> matches patterns (cols ! j)))) \<and>
   (matches patterns col \<longleftrightarrow> (\<exists>p \<in> set patterns. \<exists>a b. strip (lower col) = a @ lower p @ b))"
  using find_column_None find_column_Some matches_iff by blast

lemma posting_date_columns:
  "columns (normalize_columns \<lparr>columns = map py [''Posting Date'', ''Transaction Date''], rows = []\<rparr>)
     = [py ''posting date'', py ''transaction date'']"
  by (simp add: normalize_columns_def str_defs)

lemma posting_date_found:
  "find_column [py ''posting date'', py ''transaction date''] date_patterns = Some (py ''posting date'')"
  by (simp add: matches_def date_patterns_def str_defs)

text \<open>The columns "Posting Date", "Transaction Date": the first is the date column.\<close>

theorem find_column_first_match_witness:
  "find_column
     (columns (normalize_columns \<lparr>columns = map py [''Posting Date'', ''Transaction Date''], rows = []\<rparr>))
     date_patterns = Some (py ''posting date'') \<and>
   (\<exists>i < length [py ''posting date'', py ''transaction date''].
      [py ''posting date'', py ''transaction date''] ! i = py ''posting date'' \<and>
      matches date_patterns (py ''posting date'') \<and>
      (\<forall>j < i. \<not> matches date_patterns ([py ''posting date'', py ''transaction date''] ! j)))"
proof -
  have "\<exists>i < length [py ''posting date'', py ''transaction date''].
      [py ''posting date'', py ''transaction date''] ! i = py ''posting date'' \<and>
      matches date_patterns (py ''posting date'') \<and>
      (\<forall>j < i. \<not> matches date_patterns ([py ''posting date'', py ''transaction date''] ! j))"
    using find_column_first_match [of "[py ''posting date'', py ''transaction date'']" date_patterns
        "py ''posting date''"] posting_date_found
    by blast
  then show ?thesis
    unfolding posting_date_columns using posting_date_found by blast
qed

section \<open>Normalised names and the amount column\<close>

lemma isspace_lower_char: "isspace (lower_char c) = isspace c"
  by (auto simp: isspace_def lower_char_def)

lemma lower_char_idem: "lower_char (lower_char c) = lower_char c"
  by (simp add: lower_char_def)

lemma lower_idem: "lower (lower s) = lower s"
  by (simp add: lower_def lower_char_idem)

lemma dropWhile_isspace_lower: "dropWhile isspace (lower s) = lower (dropWhile isspace s)"
  by (induction s) (simp_all add: lower_def isspace_lower_char)

lemma lower_rev: "lower (rev s) = rev (lower s)"
  by (simp add: lower_def rev_map)

lemma lower_strip: "lower (strip s) = strip (lower s)"
  by (simp add: strip_def dropWhile_isspace_lower lower_rev [symmetric])

lemma dropWhile_fixed: "xs = [] \<or> \<not> P (hd xs) \<Longrightarrow> dropWhile P xs = xs"
  by (cases xs) auto

lemma dropWhile_head: "dropWhile P xs = [] \<or> \<not> P (hd (dropWhile P xs))"
  by (induction xs) auto

lemma strip_head: "strip s = [] \<or> \<not> isspace (hd (strip s))"
proof (cases "strip s = []")
  case True
  then show ?thesis by simp
next
  case False
  let ?t = "dropWhile isspace s"
  have t: "?t \<noteq> []" using False by (cases "dropWhile isspace s = []") (simp_all add: strip_def)
  obtain n where n: "dropWhile isspace (rev ?t) = drop n (rev ?t)"
    by (metis dropWhile_eq_drop)
  have "strip s = take (length ?t - n) ?t"
    by (simp add: strip_def n rev_drop)
  moreover from this False have "0 < length ?t - n" by (cases "length ?t - n") auto
  ultimately have "hd (strip s) = hd ?t" by (simp add: hd_take)
  moreover have "\<not> isspace (hd ?t)" using t dropWhile_head [of isspace s] by blast
  ultimately show ?thesis by simp
qed

lemma strip_last: "dropWhile isspace (rev (strip s)) = rev (strip s)"
proof -
  have "rev (strip s) = dropWhile isspace (rev (dropWhile isspace s))"
    by (simp add: strip_def)
  then show ?thesis by (simp add: dropWhile_idem)
qed

lemma strip_idem: "strip (strip s) = strip s"
proof -
  have "dropWhile isspace (strip s) = strip s"
    using strip_head [of s] by (rule dropWhile_fixed)
  then have "strip (strip s) = rev (dropWhile isspace (rev (strip s)))"
    by (simp add: strip_def)
  then show ?thesis by (simp add: strip_last)
qed

lemma normalize_idem: "strip (lower (strip (lower c))) = strip (lower c)"
  by (simp add: lower_strip lower_idem strip_idem)

lemma matches_normalize: "matches patterns (strip (lower c)) = matches patterns c"
  by (simp add: matches_def normalize_idem)

lemma debit_side_normalize: "debit_side (strip (lower c)) = debit_side c"
  by (simp add: debit_side_def normalize_idem)

lemma credit_side_normalize: "credit_side (strip (lower c)) = credit_side c"
  by (simp add: credit_side_def normalize_idem)

lemma scan_debit_credit_last:
  "scan_debit_credit cols (d0, c0) =
     ((case filter debit_side cols of [] \<Rightarrow> d0 | x # xs \<Rightarrow> Some (last (x # xs))),
      (case filter (\<lambda>c. credit_side c \<and> \<not> debit_side c) cols of [] \<Rightarrow> c0 | x # xs \<Rightarrow> Some (last (x # xs))))"
proof (induction cols arbitrary: d0 c0)
  case Nil
  then show ?case by simp
next
  case (Cons col cols)
  show ?case
  proof (cases "debit_side col")
    case True
    then show ?thesis using Cons.IH [of "Some col" c0]
      by (simp split: list.splits)
  next
    case False
    then show ?thesis using Cons.IH [of d0 "Some col"] Cons.IH [of d0 c0]
      by (simp split: list.splits)
  qed
qed

lemma contains_empty: "contains p [] \<longleftrightarrow> p = []"
  by simp

lemma strip_lower_Nil: "strip (lower []) = []"
  by (simp add: strip_def lower_def)

lemma matches_nonempty: "[] \<notin> set patterns \<Longrightarrow> matches patterns c \<Longrightarrow> c \<noteq> []"
  by (auto simp: matches_def list_ex_iff strip_def lower_def)

lemma debit_side_nonempty: "debit_side c \<Longrightarrow> c \<noteq> []"
  by (auto simp: debit_side_def strip_lower_Nil py_def)

lemma credit_side_nonempty: "credit_side c \<Longrightarrow> c \<noteq> []"
  by (auto simp: credit_side_def strip_lower_Nil py_def)

lemma amount_patterns_nonempty: "[] \<notin> set amount_patterns"
  by (simp add: amount_patterns_def py_def)

lemma date_patterns_nonempty: "[] \<notin> set date_patterns"
  by (simp add: date_patterns_def py_def)

lemma find_column_matches: "find_column cols patterns = Some c \<Longrightarrow> matches patterns c \<and> c \<in> set cols"
  by (induction cols) (auto split: if_splits)

lemma last_filter_in: "filter P xs \<noteq> [] \<Longrightarrow> P (last (filter P xs)) \<and> last (filter P xs) \<in> set xs"
proof -
  assume "filter P xs \<noteq> []"
  then have "last (filter P xs) \<in> set (filter P xs)" by (rule last_in_set)
  then show ?thesis by simp
qed

lemma find_amount_column_eq:
  "find_amount_column cols =
     (case find_column cols amount_patterns of
        Some c \<Rightarrow> Some (Single c)
      | None \<Rightarrow>
          if filter debit_side cols \<noteq> [] \<and> filter (\<lambda>c. credit_side c \<and> \<not> debit_side c) cols \<noteq> []
          then Some (Pair (last (filter debit_side cols))
                          (last (filter (\<lambda>c. credit_side c \<and> \<not> debit_side c) cols)))
          else None)"
proof (cases "find_column cols amount_patterns")
  case (Some c)
  then have "c \<noteq> []"
    using find_column_matches matches_nonempty amount_patterns_nonempty by blast
  with Some show ?thesis by (simp add: find_amount_column_def truthy_def)
next
  case None
  let ?ds = "filter debit_side cols" and ?cs = "filter (\<lambda>c. credit_side c \<and> \<not> debit_side c) cols"
  have d: "?ds \<noteq> [] \<Longrightarrow> last ?ds \<noteq> []"
    using last_filter_in [of debit_side cols] debit_side_nonempty by blast
  have c: "?cs \<noteq> [] \<Longrightarrow> last ?cs \<noteq> []"
    using last_filter_in [of "\<lambda>c. credit_side c \<and> \<not> debit_side c" cols] credit_side_nonempty by blast
  show ?thesis
  proof (cases "?ds")
    case Nil
    with None show ?thesis
      by (simp add: find_amount_column_def truthy_def scan_debit_credit_last split: list.splits)
  next
    case dcons: (Cons x xs)
    show ?thesis
    proof (cases "?cs")
      case Nil
      with None dcons show ?thesis
        by (simp add: find_amount_column_def truthy_def scan_debit_credit_last)
    next
      case (Cons y ys)
      with None dcons d c show ?thesis
        by (simp add: find_amount_column_def truthy_def scan_debit_credit_last)
    qed
  qed
qed

lemmas col_defs = matches_def date_patterns_def amount_patterns_def description_patterns_def
  debit_side_def credit_side_def truthy_def str_defs

text \<open>
  C10 (as amended). The debit/credit pair is selected exactly when no column name contains
  a single-amount synonym, some column name contains a debit-side word, and some column
  name contains a credit-side word and no debit-side word. The debit column is then the
  last column (left to right) whose name contains a debit-side word; the credit column is
  the last column whose name contains a credit-side word and no debit-side word.
\<close>

theorem pair_fallback_last_match:
  "find_amount_column cols = Some (Pair d c) \<longleftrightarrow>
     (\<forall>x \<in> set cols. \<not> matches amount_patterns x) \<and>
     filter debit_side cols \<noteq> [] \<and> d = last (filter debit_side cols) \<and>
     filter (\<lambda>x. credit_side x \<and> \<not> debit_side x) cols \<noteq> [] \<and>
     c = last (filter (\<lambda>x. credit_side x \<and> \<not> debit_side x) cols)"
  by (auto simp: find_amount_column_eq find_column_None [symmetric] split: option.splits)

text \<open>
  The claim as stated fails for the credit side: with the columns "deposit" and
  "withdrawal deposit", the last column matching a credit-side pattern is the second, which
  the \<open>if\<close> branch takes for the debit side; the credit column is the first.
\<close>

theorem pair_fallback_last_match_counterexample:
  "find_amount_column [py ''deposit'', py ''withdrawal deposit'']
     = Some (Pair (py ''withdrawal deposit'') (py ''deposit'')) \<and>
   last (filter credit_side [py ''deposit'', py ''withdrawal deposit'']) = py ''withdrawal deposit'' \<and>
   py ''withdrawal deposit'' \<noteq> py ''deposit''"
  by (simp add: find_amount_column_def col_defs)

lemma outgoing_incoming:
  "find_amount_column [py ''withdrawal'', py ''outgoing'', py ''deposit'', py ''incoming'']
     = Some (Pair (py ''outgoing'') (py ''incoming''))"
  by (simp add: find_amount_column_def col_defs)

theorem pair_fallback_last_match_witness:
  "find_amount_column [py ''withdrawal'', py ''outgoing'', py ''deposit'', py ''incoming'']
     = Some (Pair (py ''outgoing'') (py ''incoming'')) \<and>
   py ''outgoing'' = last (filter debit_side [py ''withdrawal'', py ''outgoing'', py ''deposit'', py ''incoming'']) \<and>
   py ''incoming'' = last (filter (\<lambda>x. credit_side x \<and> \<not> debit_side x)
       [py ''withdrawal'', py ''outgoing'', py ''deposit'', py ''incoming''])"
  using pair_fallback_last_match [of "[py ''withdrawal'', py ''outgoing'', py ''deposit'', py ''incoming'']"
      "py ''outgoing''" "py ''incoming''"] outgoing_incoming
  by blast
section \<open>The shape of \<open>process_csv\<close>\<close>

lemma explicit_columns_no_columns: "explicit_columns patterns [] desc_cols = desc_cols"
  by (induction patterns) simp_all

lemma find_description_columns_no_columns:
  "columns df = [] \<Longrightarrow> find_description_columns df = Inl IndexError"
  by (simp add: find_description_columns_def explicit_columns_no_columns)

lemma find_description_columns_total:
  "columns df \<noteq> [] \<Longrightarrow> \<exists>cs. find_description_columns df = Inr cs \<and> cs \<noteq> []"
  by (cases "columns df") (auto simp: find_description_columns_def Let_def)


lemma normalize_columns_simps:
  "columns (normalize_columns df) = map (\<lambda>c. strip (lower c)) (columns df)"
  "rows (normalize_columns df) = rows df"
  by (simp_all add: normalize_columns_def)

lemma find_amount_column_truthy: "find_amount_column cols = Some ac \<Longrightarrow> truthy_amount (Some ac)"
proof -
  assume a: "find_amount_column cols = Some ac"
  show ?thesis
  proof (cases ac)
    case (Single c)
    with a have "find_column cols amount_patterns = Some c"
      by (auto simp: find_amount_column_eq split: option.splits if_splits)
    then have "c \<noteq> []"
      using find_column_matches matches_nonempty amount_patterns_nonempty by blast
    with Single show ?thesis by (simp add: truthy_amount_def)
  next
    case (Pair d c)
    then show ?thesis by (simp add: truthy_amount_def)
  qed
qed

lemma find_date_column_nonempty: "find_column cols date_patterns = Some dc \<Longrightarrow> dc \<noteq> []"
  using find_column_matches matches_nonempty date_patterns_nonempty by blast

lemma process_csv_no_columns:
  "columns df = [] \<Longrightarrow> process_csv to_datetime df = Inl IndexError"
  by (simp add: process_csv_def Let_def find_description_columns_no_columns normalize_columns_simps)

lemma process_csv_no_date:
  assumes "columns df \<noteq> []"
    and "find_column (columns (normalize_columns df)) date_patterns = None"
  shows "process_csv to_datetime df = Inl (ValueError no_date_message)"
proof -
  have "columns (normalize_columns df) \<noteq> []" using assms(1) by (simp add: normalize_columns_simps)
  then obtain cs where "find_description_columns (normalize_columns df) = Inr cs"
    using find_description_columns_total by blast
  with assms(2) show ?thesis by (simp add: process_csv_def Let_def)
qed

lemma process_csv_no_amount:
  assumes "columns df \<noteq> []"
    and "find_column (columns (normalize_columns df)) date_patterns = Some dc"
    and "find_amount_column (columns (normalize_columns df)) = None"
  shows "process_csv to_datetime df = Inl (ValueError no_amount_message)"
proof -
  have "columns (normalize_columns df) \<noteq> []" using assms(1) by (simp add: normalize_columns_simps)
  then obtain cs where "find_description_columns (normalize_columns df) = Inr cs"
    using find_description_columns_total by blast
  moreover have "dc \<noteq> []" using assms(2) by (rule find_date_column_nonempty)
  ultimately show ?thesis using assms(2,3) by (simp add: process_csv_def Let_def)
qed

lemma process_csv_ok:
  assumes "columns df \<noteq> []"
    and "find_column (columns (normalize_columns df)) date_patterns = Some dc"
    and "find_amount_column (columns (normalize_columns df)) = Some ac"
  shows "\<exists>cs. find_description_columns (normalize_columns df) = Inr cs \<and> cs \<noteq> [] \<and>
     process_csv to_datetime df =
       Inr (sort_values_desc (dropna
              (zip (to_datetime (series (normalize_columns df) dc))
                 (zip (combine_descriptions (normalize_columns df) cs)
                      (process_amount (normalize_columns df) ac)))))"
proof -
  have "columns (normalize_columns df) \<noteq> []" using assms(1) by (simp add: normalize_columns_simps)
  then obtain cs where cs: "find_description_columns (normalize_columns df) = Inr cs" "cs \<noteq> []"
    using find_description_columns_total by blast
  moreover have "dc \<noteq> []" using assms(2) by (rule find_date_column_nonempty)
  moreover have "truthy_amount (Some ac)" using assms(3) by (rule find_amount_column_truthy)
  ultimately show ?thesis using assms(2,3) by (simp add: process_csv_def Let_def)
qed

lemma process_csv_Inr:
  assumes "process_csv to_datetime df = Inr out"
  shows "\<exists>dc ac cs. columns df \<noteq> [] \<and>
     find_column (columns (normalize_columns df)) date_patterns = Some dc \<and>
     find_amount_column (columns (normalize_columns df)) = Some ac \<and>
     find_description_columns (normalize_columns df) = Inr cs \<and> cs \<noteq> [] \<and>
     out = sort_values_desc (dropna
              (zip (to_datetime (series (normalize_columns df) dc))
                 (zip (combine_descriptions (normalize_columns df) cs)
                      (process_amount (normalize_columns df) ac))))"
proof (cases "columns df = []")
  case True
  then show ?thesis using assms by (simp add: process_csv_no_columns)
next
  case False
  show ?thesis
  proof (cases "find_column (columns (normalize_columns df)) date_patterns")
    case None
    then show ?thesis using assms False by (simp add: process_csv_no_date)
  next
    case (Some dc)
    show ?thesis
    proof (cases "find_amount_column (columns (normalize_columns df))")
      case None
      then show ?thesis using assms False Some by (simp add: process_csv_no_amount)
    next
      case ac: (Some ac)
      from process_csv_ok [OF False Some ac, of to_datetime] assms False Some ac
      show ?thesis by auto
    qed
  qed
qed

section \<open>Evaluation of the example frames\<close>

lemmas float_defs = float_space_def float_strip_def exponent_def floatnumber_def absfloatvalue_def
  py_float_def clean_amount_def
lemmas frame_defs = normalize_columns_def find_amount_column_def find_description_columns_def
  series_def get_def str_def combine_descriptions_def process_amount_def reconcile_def
  sort_values_desc_def iso_to_datetime_def iso_date_def days_in_month_def looks_numeric_def
  truthy_amount_def

lemma statement_eval: "process_csv iso_to_datetime statement_table = Inr statement_out"
  by (simp add: process_csv_def statement_table_def statement_out_def frame_defs float_defs col_defs)

lemma statement_wf: "wf_df (normalize_columns statement_table)"
  by (simp add: wf_df_def statement_table_def normalize_columns_def str_defs)

lemma statement_pair:
  "find_amount_column (columns (normalize_columns statement_table))
     = Some (Pair (py ''withdrawal'') (py ''deposit''))"
  by (simp add: statement_table_def normalize_columns_def find_amount_column_def col_defs)

section \<open>Sorting\<close>

lemma set_insert_desc: "set (insert_desc x xs) = insert x (set xs)"
  by (induction xs) auto

lemma mset_insert_desc: "mset (insert_desc x xs) = add_mset x (mset xs)"
  by (induction xs) auto

lemma mset_sort_values_desc: "mset (sort_values_desc xs) = mset xs"
  by (induction xs) (simp_all add: sort_values_desc_def mset_insert_desc)

lemma sorted_insert_desc:
  "sorted_wrt (\<lambda>a b. date b \<le> date a) xs \<Longrightarrow> sorted_wrt (\<lambda>a b. date b \<le> date a) (insert_desc x xs)"
  by (induction xs) (auto simp: set_insert_desc)

lemma sorted_sort_values_desc: "sorted_wrt (\<lambda>a b. date b \<le> date a) (sort_values_desc xs)"
  by (induction xs) (simp_all add: sort_values_desc_def sorted_insert_desc)

text \<open>
  C9. Whenever \<open>process_csv\<close> returns a table, the table is sorted by date in descending
  order: of two rows, the one that comes first has the later or the same date.
\<close>

theorem process_csv_sorted_descending:
  "process_csv to_datetime df = Inr out \<Longrightarrow>
     sorted_wrt (\<lambda>a b. date b \<le> date a) out \<and>
     (\<forall>i j. i < j \<and> j < length out \<longrightarrow> date (out ! j) \<le> date (out ! i))"
proof -
  assume "process_csv to_datetime df = Inr out"
  then obtain xs where "out = sort_values_desc xs" using process_csv_Inr by blast
  then have s: "sorted_wrt (\<lambda>a b. date b \<le> date a) out" by (simp add: sorted_sort_values_desc)
  then show ?thesis by (auto simp: sorted_wrt_iff_nth_less)
qed

theorem process_csv_sorted_descending_witness:
  "process_csv iso_to_datetime statement_table = Inr statement_out \<and>
   sorted_wrt (\<lambda>a b. date b \<le> date a) statement_out"
  using process_csv_sorted_descending [OF statement_eval] statement_eval by blast

section \<open>Dropped rows\<close>

lemma length_combine_descriptions: "length (combine_descriptions df cs) = length (rows df)"
  by (simp add: combine_descriptions_def)

lemma length_series: "length (series df col) = length (rows df)"
  by (simp add: series_def)

lemma length_pair_amounts: "length (pair_amounts cols d c rs) = length rs"
  by (induction rs) simp_all

lemma length_process_amount: "length (process_amount df ac) = length (rows df)"
  by (cases ac) (simp_all add: process_amount_def length_series length_pair_amounts)

lemma length_dropna:
  "length (dropna rs) = length (filter (\<lambda>r. fst r \<noteq> None \<and> snd (snd r) \<noteq> NaN) rs)"
  by (induction rs rule: dropna.induct) (auto split: option.splits)

lemma set_dropna:
  "r \<in> set (dropna rs) \<longleftrightarrow> (Some (date r), description r, amount r) \<in> set rs \<and> amount r \<noteq> NaN"
proof (induction rs rule: dropna.induct)
  case 1
  then show ?case by simp
next
  case (2 d s a rs)
  show ?case
  proof (cases d)
    case None
    then show ?thesis using 2 by auto
  next
    case (Some d')
    show ?thesis
    proof (cases "a = NaN")
      case True
      then show ?thesis using 2 Some by auto
    next
      case False
      then show ?thesis using 2 Some by (cases r) auto
    qed
  qed
qed

lemma length_filter_index:
  "length (filter P xs) = length (filter (\<lambda>i. P (xs ! i)) [0..<length xs])"
proof -
  have "{i. i < length [0..<length xs] \<and> P (xs ! ([0..<length xs] ! i))} = {i. i < length xs \<and> P (xs ! i)}"
    by auto
  then show ?thesis
    using length_filter_conv_card [of P xs]
      length_filter_conv_card [of "\<lambda>i. P (xs ! i)" "[0..<length xs]"]
    by simp
qed

lemma dropna_zip:
  assumes "length dates = n" "length descs = n" "length amounts = n"
  shows "length (dropna (zip dates (zip descs amounts))) =
           length (filter (\<lambda>i. dates ! i \<noteq> None \<and> amounts ! i \<noteq> NaN) [0..<n])"
    and "r \<in> set (dropna (zip dates (zip descs amounts))) \<longleftrightarrow>
           (\<exists>i < n. dates ! i = Some (date r) \<and> descs ! i = description r \<and> amounts ! i = amount r)
           \<and> amount r \<noteq> NaN"
proof -
  let ?rs = "zip dates (zip descs amounts)"
  have len: "length ?rs = n" using assms by simp
  have nth: "\<And>i. i < n \<Longrightarrow> ?rs ! i = (dates ! i, descs ! i, amounts ! i)" using assms by simp
  have "filter (\<lambda>i. fst (?rs ! i) \<noteq> None \<and> snd (snd (?rs ! i)) \<noteq> NaN) [0..<n]
      = filter (\<lambda>i. dates ! i \<noteq> None \<and> amounts ! i \<noteq> NaN) [0..<n]"
    by (rule filter_cong) (simp_all add: nth)
  then show "length (dropna ?rs) = length (filter (\<lambda>i. dates ! i \<noteq> None \<and> amounts ! i \<noteq> NaN) [0..<n])"
    using length_filter_index [of "\<lambda>r. fst r \<noteq> None \<and> snd (snd r) \<noteq> NaN" ?rs] len
    by (simp add: length_dropna)
  have "(Some (date r), description r, amount r) \<in> set ?rs \<longleftrightarrow>
      (\<exists>i < n. dates ! i = Some (date r) \<and> descs ! i = description r \<and> amounts ! i = amount r)"
  proof
    assume "(Some (date r), description r, amount r) \<in> set ?rs"
    then obtain i where "i < length ?rs" "?rs ! i = (Some (date r), description r, amount r)"
      by (auto simp: in_set_conv_nth)
    then show "\<exists>i < n. dates ! i = Some (date r) \<and> descs ! i = description r \<and> amounts ! i = amount r"
      using len nth by auto
  next
    assume "\<exists>i < n. dates ! i = Some (date r) \<and> descs ! i = description r \<and> amounts ! i = amount r"
    then obtain i where "i < n" "?rs ! i = (Some (date r), description r, amount r)"
      using nth by auto
    then show "(Some (date r), description r, amount r) \<in> set ?rs"
      using len by (metis nth_mem)
  qed
  then show "r \<in> set (dropna ?rs) \<longleftrightarrow>
           (\<exists>i < n. dates ! i = Some (date r) \<and> descs ! i = description r \<and> amounts ! i = amount r)
           \<and> amount r \<noteq> NaN"
    by (simp add: set_dropna)
qed

lemma set_sort_values_desc: "set (sort_values_desc xs) = set xs"
  using mset_sort_values_desc [of xs] by (metis set_mset_mset)

lemma length_sort_values_desc: "length (sort_values_desc xs) = length xs"
  using mset_sort_values_desc [of xs] by (metis size_mset)

text \<open>
  C5. When \<open>process_csv\<close> returns a table, it has at most as many rows as the input. A row
  is kept exactly when its date parsed and its amount is not NaN: the number of output rows
  is the number of such input rows, each of them is in the output, in particular each one
  whose amount is exactly 0, and every output row comes from such an input row. So every
  dropped row has an unparseable date or no computable amount.
\<close>

theorem dropped_rows:
  assumes "process_csv to_datetime df = Inr out"
    and "\<forall>cells. length (to_datetime cells) = length cells"
    and "wf_df (normalize_columns df)"
  shows "length out \<le> length (rows df) \<and>
    (\<exists>dc ac cs.
       find_column (columns (normalize_columns df)) date_patterns = Some dc \<and>
       find_amount_column (columns (normalize_columns df)) = Some ac \<and>
       find_description_columns (normalize_columns df) = Inr cs \<and>
       (let dates = to_datetime (series (normalize_columns df) dc);
            descs = combine_descriptions (normalize_columns df) cs;
            amounts = process_amount (normalize_columns df) ac
        in length out = length (filter (\<lambda>i. dates ! i \<noteq> None \<and> amounts ! i \<noteq> NaN) [0..<length (rows df)]) \<and>
           (\<forall>i d. i < length (rows df) \<and> dates ! i = Some d \<and> amounts ! i \<noteq> NaN \<longrightarrow>
              \<lparr>date = d, description = descs ! i, amount = amounts ! i\<rparr> \<in> set out) \<and>
           (\<forall>i d. i < length (rows df) \<and> dates ! i = Some d \<and> amounts ! i = Finite 0 \<longrightarrow>
              \<lparr>date = d, description = descs ! i, amount = Finite 0\<rparr> \<in> set out) \<and>
           (\<forall>r \<in> set out. \<exists>i < length (rows df).
              dates ! i = Some (date r) \<and> descs ! i = description r \<and> amounts ! i = amount r
              \<and> amount r \<noteq> NaN)))"
proof -
  let ?df = "normalize_columns df"
  let ?n = "length (rows df)"
  obtain dc ac cs where sel:
    "find_column (columns ?df) date_patterns = Some dc"
    "find_amount_column (columns ?df) = Some ac"
    "find_description_columns ?df = Inr cs"
    and out: "out = sort_values_desc (dropna
              (zip (to_datetime (series ?df dc))
                 (zip (combine_descriptions ?df cs) (process_amount ?df ac))))"
    using process_csv_Inr [OF assms(1)] by blast
  let ?dates = "to_datetime (series ?df dc)"
  let ?descs = "combine_descriptions ?df cs"
  let ?amounts = "process_amount ?df ac"
  have l1: "length ?dates = ?n" using assms(2) by (simp add: length_series normalize_columns_simps)
  have l2: "length ?descs = ?n" by (simp add: length_combine_descriptions normalize_columns_simps)
  have l3: "length ?amounts = ?n" by (simp add: length_process_amount normalize_columns_simps)
  note dz = dropna_zip [OF l1 l2 l3]
  have len: "length out = length (filter (\<lambda>i. ?dates ! i \<noteq> None \<and> ?amounts ! i \<noteq> NaN) [0..<length (rows df)])"
    using dz(1) by (simp add: out length_sort_values_desc)
  have mem: "\<And>r. r \<in> set out \<longleftrightarrow>
      (\<exists>i < ?n. ?dates ! i = Some (date r) \<and> ?descs ! i = description r \<and> ?amounts ! i = amount r)
      \<and> amount r \<noteq> NaN"
    using dz(2) by (simp add: out set_sort_values_desc)
  have le: "length out \<le> ?n"
    using len length_filter_le [of "\<lambda>i. ?dates ! i \<noteq> None \<and> ?amounts ! i \<noteq> NaN" "[0..<length (rows df)]"] by simp
  have keep: "\<And>i d. i < ?n \<Longrightarrow> ?dates ! i = Some d \<Longrightarrow> ?amounts ! i \<noteq> NaN \<Longrightarrow>
      \<lparr>date = d, description = ?descs ! i, amount = ?amounts ! i\<rparr> \<in> set out"
    using mem by auto
  have zero: "\<And>i d. i < ?n \<Longrightarrow> ?dates ! i = Some d \<Longrightarrow> ?amounts ! i = Finite 0 \<Longrightarrow>
      \<lparr>date = d, description = ?descs ! i, amount = Finite 0\<rparr> \<in> set out"
    using keep by (metis pyfloat.distinct(5))
  have from_input: "\<forall>r \<in> set out. \<exists>i < ?n.
      ?dates ! i = Some (date r) \<and> ?descs ! i = description r \<and> ?amounts ! i = amount r \<and> amount r \<noteq> NaN"
    using mem by blast
  show ?thesis
    unfolding Let_def using le sel len keep zero from_input by blast
qed

lemma length_iso_to_datetime: "\<forall>cells. length (iso_to_datetime cells) = length cells"
  by (simp add: iso_to_datetime_def)

theorem dropped_rows_witness:
  "process_csv iso_to_datetime statement_table = Inr statement_out \<and>
   wf_df (normalize_columns statement_table) \<and>
   length statement_out \<le> length (rows statement_table)"
  using dropped_rows [OF statement_eval length_iso_to_datetime statement_wf] statement_eval statement_wf
  by blast

section \<open>The debit/credit pair\<close>

lemma get_nth:
  assumes "distinct cols" "length row = length cols" "j < length cols"
  shows "get cols row (cols ! j) = row ! j"
proof -
  have "map_of (zip cols row) (cols ! j) = Some (row ! j)"
    using assms by (metis map_of_zip_nth)
  then show ?thesis by (simp add: get_def)
qed

lemma wf_df_row: "wf_df df \<Longrightarrow> i < length (rows df) \<Longrightarrow> length (rows df ! i) = length (columns df)"
  by (simp add: wf_df_def list_all_length)

lemma pair_amounts_nth:
  "i < length rs \<Longrightarrow> pair_amounts cols d c rs ! i =
     reconcile (clean_amount (get cols (rs ! i) d)) (clean_amount (get cols (rs ! i) c))"
proof (induction rs arbitrary: i)
  case Nil
  then show ?case by simp
next
  case (Cons r rs)
  then show ?case by (cases i) simp_all
qed

lemma fl_neg_abs_negative: "x \<noteq> NaN \<Longrightarrow> x \<noteq> Finite 0 \<Longrightarrow> is_negative (fl_neg (fl_abs x))"
  by (cases x) auto

lemma fl_abs_positive: "x \<noteq> NaN \<Longrightarrow> x \<noteq> Finite 0 \<Longrightarrow> is_positive (fl_abs x)"
  by (cases x) auto

text \<open>
  C4. When the debit/credit pair is selected, the amount of every row is computed from the
  cells at the positions of the two columns: if the cleaned debit value is a number other
  than 0, the amount is \<open>-abs(debit)\<close> and negative; else if the cleaned credit value is a
  number other than 0, the amount is \<open>abs(credit)\<close> and positive; else it is 0. The debit
  value is tested first, so it has priority when both are nonzero.
\<close>

theorem pair_reconciliation:
  assumes "find_amount_column (columns df) = Some (Pair debit_col credit_col)"
    and "wf_df df"
    and "i < length (rows df)"
  shows "\<exists>j k. j < length (columns df) \<and> k < length (columns df) \<and>
     columns df ! j = debit_col \<and> columns df ! k = credit_col \<and>
     (let debit = clean_amount (rows df ! i ! j);
          credit = clean_amount (rows df ! i ! k);
          a = process_amount df (Pair debit_col credit_col) ! i
      in (debit \<noteq> NaN \<and> debit \<noteq> Finite 0 \<longrightarrow> a = fl_neg (fl_abs debit) \<and> is_negative a) \<and>
         ((debit = NaN \<or> debit = Finite 0) \<and> credit \<noteq> NaN \<and> credit \<noteq> Finite 0 \<longrightarrow>
            a = fl_abs credit \<and> is_positive a) \<and>
         ((debit = NaN \<or> debit = Finite 0) \<and> (credit = NaN \<or> credit = Finite 0) \<longrightarrow> a = Finite 0))"
proof -
  let ?cols = "columns df" and ?row = "rows df ! i"
  from assms(1) have sel:
    "filter debit_side ?cols \<noteq> []" "debit_col = last (filter debit_side ?cols)"
    "filter (\<lambda>x. credit_side x \<and> \<not> debit_side x) ?cols \<noteq> []"
    "credit_col = last (filter (\<lambda>x. credit_side x \<and> \<not> debit_side x) ?cols)"
    by (auto simp: find_amount_column_eq split: option.splits if_splits)
  have "debit_col \<in> set ?cols" using sel(1,2) last_filter_in by blast
  then obtain j where j: "j < length ?cols" "?cols ! j = debit_col" by (auto simp: in_set_conv_nth)
  have "credit_col \<in> set ?cols" using sel(3,4) last_filter_in [of "\<lambda>x. credit_side x \<and> \<not> debit_side x"] by blast
  then obtain k where k: "k < length ?cols" "?cols ! k = credit_col" by (auto simp: in_set_conv_nth)
  have d: "distinct ?cols" using assms(2) by (simp add: wf_df_def)
  have l: "length ?row = length ?cols" using assms(2,3) by (rule wf_df_row)
  have gd: "get ?cols ?row debit_col = ?row ! j" using get_nth [OF d l j(1)] j(2) by simp
  have gc: "get ?cols ?row credit_col = ?row ! k" using get_nth [OF d l k(1)] k(2) by simp
  have a: "process_amount df (Pair debit_col credit_col) ! i
      = reconcile (clean_amount (?row ! j)) (clean_amount (?row ! k))"
    using assms(3) by (simp add: process_amount_def pair_amounts_nth gd gc)
  have "let debit = clean_amount (?row ! j); credit = clean_amount (?row ! k);
          a = process_amount df (Pair debit_col credit_col) ! i
      in (debit \<noteq> NaN \<and> debit \<noteq> Finite 0 \<longrightarrow> a = fl_neg (fl_abs debit) \<and> is_negative a) \<and>
         ((debit = NaN \<or> debit = Finite 0) \<and> credit \<noteq> NaN \<and> credit \<noteq> Finite 0 \<longrightarrow>
            a = fl_abs credit \<and> is_positive a) \<and>
         ((debit = NaN \<or> debit = Finite 0) \<and> (credit = NaN \<or> credit = Finite 0) \<longrightarrow> a = Finite 0)"
    unfolding Let_def a reconcile_def
    using fl_neg_abs_negative fl_abs_positive by auto
  with j k show ?thesis by blast
qed

theorem pair_reconciliation_witness:
  "find_amount_column (columns (normalize_columns statement_table))
     = Some (Pair (py ''withdrawal'') (py ''deposit'')) \<and>
   wf_df (normalize_columns statement_table) \<and>
   (1::nat) < length (rows (normalize_columns statement_table)) \<and>
   (\<exists>j k. j < length (columns (normalize_columns statement_table)) \<and>
      k < length (columns (normalize_columns statement_table)) \<and>
      columns (normalize_columns statement_table) ! j = py ''withdrawal'' \<and>
      columns (normalize_columns statement_table) ! k = py ''deposit'' \<and>
      (let debit = clean_amount (rows (normalize_columns statement_table) ! 1 ! j);
           credit = clean_amount (rows (normalize_columns statement_table) ! 1 ! k);
           a = process_amount (normalize_columns statement_table)
                 (Pair (py ''withdrawal'') (py ''deposit'')) ! 1
       in (debit \<noteq> NaN \<and> debit \<noteq> Finite 0 \<longrightarrow> a = fl_neg (fl_abs debit) \<and> is_negative a) \<and>
          ((debit = NaN \<or> debit = Finite 0) \<and> credit \<noteq> NaN \<and> credit \<noteq> Finite 0 \<longrightarrow>
             a = fl_abs credit \<and> is_positive a) \<and>
          ((debit = NaN \<or> debit = Finite 0) \<and> (credit = NaN \<or> credit = Finite 0) \<longrightarrow>
             a = Finite 0)))"
proof -
  have i: "(1::nat) < length (rows (normalize_columns statement_table))"
    by (simp add: statement_table_def normalize_columns_def)
  from pair_reconciliation [OF statement_pair statement_wf i] statement_pair statement_wf i
  show ?thesis by blast
qed

section \<open>Schema errors\<close>

lemma messages_distinct:
  "no_date_message \<noteq> no_amount_message"
  "no_description_message \<noteq> no_date_message"
  "no_description_message \<noteq> no_amount_message"
  by (simp_all add: no_date_message_def no_amount_message_def no_description_message_def py_def)

lemma find_date_normalized:
  "find_column (map (\<lambda>c. strip (lower c)) cols) patterns = None \<longleftrightarrow> (\<forall>c \<in> set cols. \<not> matches patterns c)"
  by (simp add: find_column_None matches_normalize)

lemma filter_normalized_empty:
  "filter P (map (\<lambda>c. strip (lower c)) cols) = [] \<longleftrightarrow> (\<forall>c \<in> set cols. \<not> P (strip (lower c)))"
  by (simp add: filter_empty_conv)

lemma find_amount_normalized:
  "find_amount_column (map (\<lambda>c. strip (lower c)) cols) = None \<longleftrightarrow>
     (\<forall>c \<in> set cols. \<not> matches amount_patterns c) \<and>
     \<not> ((\<exists>c \<in> set cols. debit_side c) \<and> (\<exists>c \<in> set cols. credit_side c \<and> \<not> debit_side c))"
proof -
  let ?cols = "map (\<lambda>c. strip (lower c)) cols"
  have a: "find_column ?cols amount_patterns = None \<longleftrightarrow> (\<forall>c \<in> set cols. \<not> matches amount_patterns c)"
    by (rule find_date_normalized)
  have d: "filter debit_side ?cols = [] \<longleftrightarrow> (\<forall>c \<in> set cols. \<not> debit_side c)"
    by (simp add: filter_normalized_empty debit_side_normalize)
  have c: "filter (\<lambda>x. credit_side x \<and> \<not> debit_side x) ?cols = [] \<longleftrightarrow>
      (\<forall>c \<in> set cols. \<not> (credit_side c \<and> \<not> debit_side c))"
    by (simp add: filter_normalized_empty debit_side_normalize credit_side_normalize)
  have "find_amount_column ?cols = None \<longleftrightarrow>
      find_column ?cols amount_patterns = None \<and>
      \<not> (filter debit_side ?cols \<noteq> [] \<and> filter (\<lambda>x. credit_side x \<and> \<not> debit_side x) ?cols \<noteq> [])"
    by (simp add: find_amount_column_eq split: option.splits)
  then show ?thesis using a d c by blast
qed

text \<open>
  C3 (as amended). For a frame with at least one column (and pairwise distinct normalised
  labels), \<open>process_csv\<close> fails with the no-date message exactly when no column name
  contains a date synonym; it fails with the no-amount message exactly when some column
  name contains a date synonym, none contains an amount synonym, and there is no pair of a
  column whose name contains a debit-side word and a column whose name contains a
  credit-side word and no debit-side word; otherwise it returns a table. The two messages
  are distinct.
\<close>

theorem schema_errors:
  assumes "columns df \<noteq> []"
    and "wf_df (normalize_columns df)"
  shows "(process_csv to_datetime df = Inl (ValueError no_date_message) \<longleftrightarrow>
           (\<forall>c \<in> set (columns df). \<not> matches date_patterns c)) \<and>
         (process_csv to_datetime df = Inl (ValueError no_amount_message) \<longleftrightarrow>
           (\<exists>c \<in> set (columns df). matches date_patterns c) \<and>
           (\<forall>c \<in> set (columns df). \<not> matches amount_patterns c) \<and>
           \<not> ((\<exists>c \<in> set (columns df). debit_side c) \<and>
              (\<exists>c \<in> set (columns df). credit_side c \<and> \<not> debit_side c))) \<and>
         ((\<exists>out. process_csv to_datetime df = Inr out) \<longleftrightarrow>
           (\<exists>c \<in> set (columns df). matches date_patterns c) \<and>
           ((\<exists>c \<in> set (columns df). matches amount_patterns c) \<or>
            (\<exists>c \<in> set (columns df). debit_side c) \<and>
            (\<exists>c \<in> set (columns df). credit_side c \<and> \<not> debit_side c))) \<and>
         no_date_message \<noteq> no_amount_message"
proof -
  let ?cols = "columns (normalize_columns df)"
  have cols: "?cols = map (\<lambda>c. strip (lower c)) (columns df)" by (simp add: normalize_columns_simps)
  have nd: "find_column ?cols date_patterns = None \<longleftrightarrow> (\<forall>c \<in> set (columns df). \<not> matches date_patterns c)"
    unfolding cols by (rule find_date_normalized)
  have na: "find_amount_column ?cols = None \<longleftrightarrow>
     (\<forall>c \<in> set (columns df). \<not> matches amount_patterns c) \<and>
     \<not> ((\<exists>c \<in> set (columns df). debit_side c) \<and> (\<exists>c \<in> set (columns df). credit_side c \<and> \<not> debit_side c))"
    unfolding cols by (rule find_amount_normalized)
  show ?thesis
  proof (cases "find_column ?cols date_patterns")
    case None
    then have "process_csv to_datetime df = Inl (ValueError no_date_message)"
      using assms(1) by (simp add: process_csv_no_date)
    with None nd show ?thesis using messages_distinct(1) by auto
  next
    case (Some dc)
    show ?thesis
    proof (cases "find_amount_column ?cols")
      case None
      then have "process_csv to_datetime df = Inl (ValueError no_amount_message)"
        using assms(1) Some by (simp add: process_csv_no_amount)
      with None Some nd na show ?thesis using messages_distinct(1) by auto
    next
      case ac: (Some ac)
      obtain out where "process_csv to_datetime df = Inr out"
        using process_csv_ok [OF assms(1) Some ac, of to_datetime] by blast
      with ac Some nd na show ?thesis using messages_distinct(1) by auto
    qed
  qed
qed

text \<open>
  The claim as stated fails for the frame with no columns, where the fallback to the first
  column raises \<open>IndexError\<close> before the date column is checked; and a pair of columns
  whose names both contain a debit-side word is no pair for the code.
\<close>

theorem schema_errors_counterexample:
  "process_csv iso_to_datetime \<lparr>columns = [], rows = []\<rparr> = Inl IndexError \<and>
   find_column [] date_patterns = None \<and>
   IndexError \<noteq> ValueError no_date_message \<and>
   process_csv iso_to_datetime
     \<lparr>columns = map py [''date'', ''withdrawal deposit'', ''deposit withdrawal''], rows = []\<rparr>
     = Inl (ValueError no_amount_message) \<and>
   debit_side (py ''withdrawal deposit'') \<and> credit_side (py ''deposit withdrawal'')"
  by (simp add: process_csv_def frame_defs col_defs)

lemma name_note_no_date:
  "process_csv iso_to_datetime \<lparr>columns = map py [''Name'', ''Note''], rows = []\<rparr>
     = Inl (ValueError no_date_message)"
  by (simp add: process_csv_def frame_defs col_defs)

text \<open>The frame with the columns "Name" and "Note" fails with the no-date message.\<close>

theorem schema_errors_witness:
  "columns \<lparr>columns = map py [''Name'', ''Note''], rows = []\<rparr> \<noteq> [] \<and>
   wf_df (normalize_columns \<lparr>columns = map py [''Name'', ''Note''], rows = []\<rparr>) \<and>
   process_csv iso_to_datetime \<lparr>columns = map py [''Name'', ''Note''], rows = []\<rparr>
     = Inl (ValueError no_date_message) \<and>
   \<not> (\<exists>c \<in> set (columns \<lparr>columns = map py [''Name'', ''Note''], rows = []\<rparr>). matches date_patterns c)"
proof -
  have c: "columns \<lparr>columns = map py [''Name'', ''Note''], rows = []\<rparr> \<noteq> []" by simp
  have w: "wf_df (normalize_columns \<lparr>columns = map py [''Name'', ''Note''], rows = []\<rparr>)"
    by (simp add: wf_df_def normalize_columns_def str_defs)
  from schema_errors [OF c w, of iso_to_datetime] name_note_no_date
  have "\<forall>c \<in> set (columns \<lparr>columns = map py [''Name'', ''Note''], rows = []\<rparr>). \<not> matches date_patterns c"
    by blast
  with c w name_note_no_date show ?thesis by blast
qed

section \<open>Description columns\<close>

lemma set_add_matching:
  "set (add_matching pattern cols desc_cols) =
     set desc_cols \<union> {c \<in> set cols. contains (lower pattern) (strip (lower c))}"
  by (induction cols arbitrary: desc_cols) auto

lemma set_explicit_columns:
  "set (explicit_columns patterns cols desc_cols) = set desc_cols \<union> {c \<in> set cols. matches patterns c}"
proof (induction patterns arbitrary: desc_cols)
  case Nil
  then show ?case by (simp add: matches_def)
next
  case (Cons p ps)
  have "{c \<in> set cols. matches (p # ps) c}
      = {c \<in> set cols. contains (lower p) (strip (lower c))} \<union> {c \<in> set cols. matches ps c}"
    by (auto simp: matches_def)
  then show ?case by (simp add: Cons.IH set_add_matching Un_assoc)
qed

lemma explicit_columns_empty:
  "explicit_columns patterns cols [] = [] \<longleftrightarrow> (\<forall>c \<in> set cols. \<not> matches patterns c)"
proof -
  have "explicit_columns patterns cols [] = [] \<longleftrightarrow> set (explicit_columns patterns cols []) = {}"
    by simp
  then show ?thesis unfolding set_explicit_columns by auto
qed

lemma add_matching_distinct:
  "distinct cols \<Longrightarrow> add_matching pattern cols desc_cols =
     desc_cols @ filter (\<lambda>c. contains (lower pattern) (strip (lower c)) \<and> c \<notin> set desc_cols) cols"
proof (induction cols arbitrary: desc_cols)
  case Nil
  then show ?case by simp
next
  case (Cons col cols)
  then have d: "distinct cols" and n: "col \<notin> set cols" by simp_all
  show ?case
  proof (cases "contains (lower pattern) (strip (lower col)) \<and> col \<notin> set desc_cols")
    case True
    have "filter (\<lambda>c. contains (lower pattern) (strip (lower c)) \<and> c \<notin> set (desc_cols @ [col])) cols
        = filter (\<lambda>c. contains (lower pattern) (strip (lower c)) \<and> c \<notin> set desc_cols) cols"
      using n by (intro filter_cong) auto
    with True show ?thesis using Cons.IH [OF d, of "desc_cols @ [col]"] by simp
  next
    case False
    then show ?thesis using Cons.IH [OF d, of desc_cols] by auto
  qed
qed

lemma explicit_columns_grouped:
  assumes "distinct patterns" "distinct cols"
  shows "explicit_columns patterns cols desc_cols =
     desc_cols @ concat (map (\<lambda>p. filter (\<lambda>c. c \<notin> set desc_cols \<and>
        find (\<lambda>q. contains (lower q) (strip (lower c))) patterns = Some p) cols) patterns)"
  using assms(1)
proof (induction patterns arbitrary: desc_cols)
  case Nil
  then show ?case by simp
next
  case (Cons p ps)
  then have dps: "distinct ps" and pn: "p \<notin> set ps" by simp_all
  let ?m = "\<lambda>q c. contains (lower q) (strip (lower c))"
  let ?acc = "add_matching p cols desc_cols"
  have acc: "?acc = desc_cols @ filter (\<lambda>c. ?m p c \<and> c \<notin> set desc_cols) cols"
    using assms(2) by (rule add_matching_distinct)
  have first: "filter (\<lambda>c. c \<notin> set desc_cols \<and> find (\<lambda>q. ?m q c) (p # ps) = Some p) cols
      = filter (\<lambda>c. ?m p c \<and> c \<notin> set desc_cols) cols"
  proof (rule filter_cong [OF refl])
    fix c assume "c \<in> set cols"
    have "find (\<lambda>q. ?m q c) ps \<noteq> Some p" using pn by (metis find_Some_iff nth_mem)
    then show "(c \<notin> set desc_cols \<and> find (\<lambda>q. ?m q c) (p # ps) = Some p)
        = (?m p c \<and> c \<notin> set desc_cols)" by auto
  qed
  have later: "map (\<lambda>q. filter (\<lambda>c. c \<notin> set ?acc \<and> find (\<lambda>q. ?m q c) ps = Some q) cols) ps
      = map (\<lambda>q. filter (\<lambda>c. c \<notin> set desc_cols \<and> find (\<lambda>q. ?m q c) (p # ps) = Some q) cols) ps"
  proof (rule map_cong [OF refl])
    fix q assume q: "q \<in> set ps"
    then have qp: "q \<noteq> p" using pn by auto
    show "filter (\<lambda>c. c \<notin> set ?acc \<and> find (\<lambda>q. ?m q c) ps = Some q) cols
        = filter (\<lambda>c. c \<notin> set desc_cols \<and> find (\<lambda>q. ?m q c) (p # ps) = Some q) cols"
    proof (rule filter_cong [OF refl])
      fix c assume c: "c \<in> set cols"
      have "c \<notin> set ?acc \<longleftrightarrow> c \<notin> set desc_cols \<and> \<not> ?m p c"
        using c by (auto simp: set_add_matching)
      then show "(c \<notin> set ?acc \<and> find (\<lambda>q. ?m q c) ps = Some q)
          = (c \<notin> set desc_cols \<and> find (\<lambda>q. ?m q c) (p # ps) = Some q)"
        using qp by auto
    qed
  qed
  have "explicit_columns (p # ps) cols desc_cols
      = ?acc @ concat (map (\<lambda>q. filter (\<lambda>c. c \<notin> set ?acc \<and> find (\<lambda>q. ?m q c) ps = Some q) cols) ps)"
    using Cons.IH [OF dps, of ?acc] by simp
  also have "\<dots> = desc_cols @ filter (\<lambda>c. ?m p c \<and> c \<notin> set desc_cols) cols
      @ concat (map (\<lambda>q. filter (\<lambda>c. c \<notin> set desc_cols \<and> find (\<lambda>q. ?m q c) (p # ps) = Some q) cols) ps)"
    unfolding later using acc by simp
  finally show ?case using first by simp
qed

lemma distinct_add_matching: "distinct desc_cols \<Longrightarrow> distinct (add_matching pattern cols desc_cols)"
  by (induction cols arbitrary: desc_cols) auto

lemma distinct_explicit_columns: "distinct desc_cols \<Longrightarrow> distinct (explicit_columns patterns cols desc_cols)"
  by (induction patterns arbitrary: desc_cols) (auto simp: distinct_add_matching)

lemma description_patterns_distinct: "distinct description_patterns"
  by (simp add: description_patterns_def py_def)

lemma lower_Nil_iff: "lower v = [] \<longleftrightarrow> v = []"
  by (simp add: lower_def)

lemma description_parts_filter:
  "description_parts cols row cs =
     filter (\<lambda>v. v \<noteq> [] \<and> lower v \<noteq> py ''nan'' \<and> lower v \<noteq> py ''none'')
       (map (\<lambda>c. strip (str (get cols row c))) cs)"
  by (induction cs) (auto simp: Let_def lower_Nil_iff)

lemma combine_descriptions_nth:
  "i < length (rows df) \<Longrightarrow> combine_descriptions df cs ! i =
     (let vals = filter (\<lambda>v. v \<noteq> [] \<and> lower v \<noteq> py ''nan'' \<and> lower v \<noteq> py ''none'')
                   (map (\<lambda>c. strip (str (get (columns df) (rows df ! i) c))) cs)
      in if vals = [] then py ''Unknown Transaction'' else join (py '' | '') vals)"
  by (simp add: combine_descriptions_def description_parts_filter Let_def)

lemma find_description_columns_explicit:
  assumes "\<exists>c \<in> set (columns df). matches description_patterns c"
  shows "find_description_columns df = Inr (explicit_columns description_patterns (columns df) [])"
proof -
  have "explicit_columns description_patterns (columns df) [] \<noteq> []"
    using assms by (simp add: explicit_columns_empty)
  then show ?thesis by (simp add: find_description_columns_def)
qed

text \<open>
  C2 (as amended). When some column name contains a description synonym, the selected
  description columns are exactly the columns whose name contains one, each once, grouped
  by the first synonym of the list that the name contains: the groups follow the order of
  the synonym list, and inside a group the columns keep their left-to-right order. For
  every row and every list of selected columns, the description is made of the trimmed
  cell values of these columns, in the order of the selection, without the values that
  are empty or equal to "nan" or "none" in any letter case, joined by \<open>" | "\<close>; it is
  "Unknown Transaction" when no value is left.
\<close>

theorem description_selection:
  assumes "wf_df df"
  shows "((\<exists>c \<in> set (columns df). matches description_patterns c) \<longrightarrow>
      (\<exists>cs. find_description_columns df = Inr cs \<and> distinct cs \<and>
         set cs = {c \<in> set (columns df). matches description_patterns c} \<and>
         cs = concat (map (\<lambda>p. filter (\<lambda>c. find (\<lambda>q. contains (lower q) (strip (lower c)))
                        description_patterns = Some p) (columns df)) description_patterns))) \<and>
    (\<forall>cs i. i < length (rows df) \<longrightarrow> combine_descriptions df cs ! i =
      (let vals = filter (\<lambda>v. v \<noteq> [] \<and> lower v \<noteq> py ''nan'' \<and> lower v \<noteq> py ''none'')
                    (map (\<lambda>c. strip (str (get (columns df) (rows df ! i) c))) cs)
       in if vals = [] then py ''Unknown Transaction'' else join (py '' | '') vals))"
proof -
  have d: "distinct (columns df)" using assms by (simp add: wf_df_def)
  let ?cs = "explicit_columns description_patterns (columns df) []"
  have 1: "distinct ?cs" by (simp add: distinct_explicit_columns)
  have 2: "set ?cs = {c \<in> set (columns df). matches description_patterns c}"
    by (simp add: set_explicit_columns)
  have 3: "?cs = concat (map (\<lambda>p. filter (\<lambda>c. find (\<lambda>q. contains (lower q) (strip (lower c)))
                        description_patterns = Some p) (columns df)) description_patterns)"
    using explicit_columns_grouped [OF description_patterns_distinct d, of "[]"] by simp
  show ?thesis
    using find_description_columns_explicit [of df] 1 2 3 combine_descriptions_nth [of _ df]
    by (intro conjI impI allI) (simp_all only: exI [of _ ?cs] simp_thms)
qed

text \<open>
  The claim as stated fails on the order: with the columns "Merchant" and "Memo" in this
  order, the selection is memo, merchant, since "memo" comes before "merchant" in the
  synonym list, and the description is "Coffee | Starbucks", not "Starbucks | Coffee".
\<close>

theorem description_selection_counterexample:
  "process_csv iso_to_datetime merchant_memo_table =
     Inr [\<lparr>date = (2024, 1, 5), description = py ''Coffee | Starbucks'', amount = Finite 4.5\<rparr>] \<and>
   columns (normalize_columns merchant_memo_table) = map py [''date'', ''amount'', ''merchant'', ''memo''] \<and>
   find_description_columns (normalize_columns merchant_memo_table) = Inr [py ''memo'', py ''merchant'']"
  by (simp add: process_csv_def merchant_memo_table_def frame_defs float_defs col_defs)

lemma merchant_memo_wf: "wf_df (normalize_columns merchant_memo_table)"
  by (simp add: wf_df_def merchant_memo_table_def normalize_columns_def str_defs)

lemma merchant_memo_matches:
  "\<exists>c \<in> set (columns (normalize_columns merchant_memo_table)). matches description_patterns c"
  by (simp add: merchant_memo_table_def normalize_columns_def col_defs)

theorem description_selection_witness:
  "wf_df (normalize_columns merchant_memo_table) \<and>
   (\<exists>cs. find_description_columns (normalize_columns merchant_memo_table) = Inr cs \<and> distinct cs \<and>
      set cs = {c \<in> set (columns (normalize_columns merchant_memo_table)). matches description_patterns c} \<and>
      cs = concat (map (\<lambda>p. filter (\<lambda>c. find (\<lambda>q. contains (lower q) (strip (lower c)))
                     description_patterns = Some p) (columns (normalize_columns merchant_memo_table)))
                description_patterns))"
  using description_selection [OF merchant_memo_wf] merchant_memo_wf merchant_memo_matches
  by blast






section \<open>Cleaning amounts\<close>

lemma replace_filter: "replace c [] s = filter (\<lambda>x. x \<noteq> c) s"
  by (induction s) auto

lemma contains_single: "contains [c] s \<longleftrightarrow> c \<in> set s"
proof (induction s)
  case Nil
  then show ?case by simp
next
  case (Cons x xs)
  then show ?case by (cases xs) auto
qed

lemma strip_no_space: "\<forall>c \<in> set s. \<not> isspace c \<Longrightarrow> strip s = s"
proof -
  assume a: "\<forall>c \<in> set s. \<not> isspace c"
  have 1: "dropWhile isspace s = s"
    using a by (intro dropWhile_fixed) (cases s, auto)
  have "\<forall>c \<in> set (rev s). \<not> isspace c" using a by simp
  then have 2: "dropWhile isspace (rev s) = rev s"
    by (intro dropWhile_fixed) (cases "rev s", auto)
  show ?thesis by (simp add: strip_def 1 2)
qed

lemma float_strip_no_space: "\<forall>c \<in> set s. \<not> isspace c \<Longrightarrow> float_strip s = s"
proof -
  assume a: "\<forall>c \<in> set s. \<not> isspace c"
  then have b: "\<forall>c \<in> set s. \<not> float_space c" by (simp add: float_space_def)
  have 1: "dropWhile float_space s = s"
    using b by (intro dropWhile_fixed) (cases s, auto)
  have "\<forall>c \<in> set (rev s). \<not> float_space c" using b by simp
  then have 2: "dropWhile float_space (rev s) = rev s"
    by (intro dropWhile_fixed) (cases "rev s", auto)
  show ?thesis by (simp add: float_strip_def 1 2)
qed

lemma clean_amount_Some:
  "clean_amount (Some s) =
     (let t = filter (\<lambda>c. c \<notin> {36, 163, 8364, 44, 32}) (strip s);
          u = (if 40 \<in> set t \<and> 41 \<in> set t then 45 # filter (\<lambda>c. c \<noteq> 40 \<and> c \<noteq> 41) t else t)
      in case py_float u of Some x \<Rightarrow> x | None \<Rightarrow> Finite 0)"
proof -
  have f: "replace 32 [] (replace 44 [] (replace 8364 [] (replace 163 [] (replace 36 [] (strip s)))))
      = filter (\<lambda>c. c \<notin> {36, 163, 8364, 44, 32}) (strip s)"
    by (simp add: replace_filter)
  have p: "py ''('' = [40]" "py '')'' = [41]" "py ''-'' = [45]" by (simp_all add: py_def)
  show ?thesis
    unfolding clean_amount_def Let_def option.case f p contains_single
    by (simp add: replace_filter) 
qed

lemma py_float_minus:
  assumes "fb \<noteq> []" "\<forall>c \<in> set fb. \<not> isspace c"
  shows "py_float (45 # fb) = map_option fl_neg (absfloatvalue fb)"
proof -
  have "\<forall>c \<in> set (45 # fb). \<not> isspace c" using assms(2) by (simp add: isspace_def)
  then have "float_strip (45 # fb) = 45 # fb" by (rule float_strip_no_space)
  then show ?thesis by (simp add: py_float_def)
qed

lemma py_float_unsigned:
  assumes "fb \<noteq> []" "\<forall>c \<in> set fb. \<not> isspace c" "hd fb \<noteq> 45" "hd fb \<noteq> 43"
  shows "py_float fb = absfloatvalue fb"
proof -
  have "float_strip fb = fb" using assms(2) by (rule float_strip_no_space)
  then show ?thesis using assms(1,3,4) by (cases fb) (simp_all add: py_float_def)
qed

lemma clean_amount_parenthesized:
  assumes "body \<noteq> []" "isdigit (hd body) \<or> hd body = 46"
    and "\<forall>c \<in> set body. \<not> isspace c \<and> c \<noteq> 40 \<and> c \<noteq> 41"
  shows "clean_amount (Some (40 # body @ [41])) = fl_neg (clean_amount (Some body))"
proof -
  let ?keep = "\<lambda>c::nat. c \<notin> {36, 163, 8364, 44, 32}"
  let ?fb = "filter ?keep body"
  obtain b bs where body: "body = b # bs" using assms(1) by (cases body) auto
  have b: "isdigit b \<or> b = 46" using assms(2) body by simp
  then have kb: "?keep b" by (auto simp: isdigit_def)
  have fb: "?fb = b # filter ?keep bs" using body kb by simp
  have nsp: "\<forall>c \<in> set ?fb. \<not> isspace c" using assms(3) by simp
  have nop: "40 \<notin> set ?fb \<and> 41 \<notin> set ?fb" using assms(3) by auto
  have nopf: "filter (\<lambda>c. c \<noteq> 40 \<and> c \<noteq> 41) ?fb = ?fb"
    using nop by (intro filter_True) auto
  have hdfb: "hd ?fb \<noteq> 45 \<and> hd ?fb \<noteq> 43" using fb b by (auto simp: isdigit_def)
  have s1: "strip (40 # body @ [41]) = 40 # body @ [41]"
    using assms(3) by (intro strip_no_space) (auto simp: isspace_def)
  have s2: "strip body = body" using assms(3) by (intro strip_no_space) auto
  have t1: "filter ?keep (40 # body @ [41]) = 40 # ?fb @ [41]" by simp
  have "clean_amount (Some (40 # body @ [41])) = (case py_float (45 # ?fb) of Some x \<Rightarrow> x | None \<Rightarrow> Finite 0)"
    unfolding clean_amount_Some s1 t1 Let_def using nopf by simp
  also have "\<dots> = (case map_option fl_neg (absfloatvalue ?fb) of Some x \<Rightarrow> x | None \<Rightarrow> Finite 0)"
    using py_float_minus [of ?fb] fb nsp by simp
  finally have l: "clean_amount (Some (40 # body @ [41]))
      = (case map_option fl_neg (absfloatvalue ?fb) of Some x \<Rightarrow> x | None \<Rightarrow> Finite 0)" .
  have "clean_amount (Some body) = (case py_float ?fb of Some x \<Rightarrow> x | None \<Rightarrow> Finite 0)"
    unfolding clean_amount_Some s2 Let_def using nop by simp
  also have "\<dots> = (case absfloatvalue ?fb of Some x \<Rightarrow> x | None \<Rightarrow> Finite 0)"
    using py_float_unsigned [of ?fb] fb nsp hdfb by simp
  finally have r: "clean_amount (Some body) = (case absfloatvalue ?fb of Some x \<Rightarrow> x | None \<Rightarrow> Finite 0)" .
  show ?thesis unfolding l r by (cases "absfloatvalue ?fb") simp_all
qed

lemma clean_amount_examples:
  "clean_amount (Some (py ''$1,234.56'')) = Finite 1234.56"
  "clean_amount (Some (py ''(45.00)'')) = Finite (- 45.00)"
  "clean_amount (Some (8364 # py ''10'')) = Finite 10.0"
  "clean_amount (Some (163 # py ''1,000'')) = Finite 1000"
  "clean_amount (Some (py '''')) = Finite 0"
  "clean_amount (Some (py ''n/a'')) = Finite 0"
  by (simp_all add: float_defs str_defs)

text \<open>
  C7. A missing cell gives 0. For a text cell, \<open>_clean_amount\<close> trims it, deletes every
  dollar, pound and euro sign, every comma and every space, and, when the text has both an
  opening and a closing parenthesis, deletes the parentheses and puts a minus sign in
  front; the result is parsed by \<open>float\<close>, and a text that does not parse gives 0. A
  parenthesised unsigned number is thereby turned into its negation. In particular
  "$1,234.56" gives 1234.56, "(45.00)" gives -45.00, the euro sign followed by "10" gives
  10.0, the pound sign followed by "1,000" gives 1000, and the empty text and "n/a" give 0.
\<close>

theorem clean_amount_spec:
  "clean_amount None = Finite 0 \<and>
   (\<forall>s. clean_amount (Some s) =
      (let t = filter (\<lambda>c. c \<notin> {36, 163, 8364, 44, 32}) (strip s);
           u = (if 40 \<in> set t \<and> 41 \<in> set t then 45 # filter (\<lambda>c. c \<noteq> 40 \<and> c \<noteq> 41) t else t)
       in case py_float u of Some x \<Rightarrow> x | None \<Rightarrow> Finite 0)) \<and>
   (\<forall>body. body \<noteq> [] \<and> (isdigit (hd body) \<or> hd body = 46) \<and>
       (\<forall>c \<in> set body. \<not> isspace c \<and> c \<noteq> 40 \<and> c \<noteq> 41)
       \<longrightarrow> clean_amount (Some (40 # body @ [41])) = fl_neg (clean_amount (Some body))) \<and>
   clean_amount (Some (py ''$1,234.56'')) = Finite 1234.56 \<and>
   clean_amount (Some (py ''(45.00)'')) = Finite (- 45.00) \<and>
   clean_amount (Some (8364 # py ''10'')) = Finite 10.0 \<and>
   clean_amount (Some (163 # py ''1,000'')) = Finite 1000 \<and>
   clean_amount (Some (py '''')) = Finite 0 \<and>
   clean_amount (Some (py ''n/a'')) = Finite 0"
  using clean_amount_Some clean_amount_parenthesized clean_amount_examples
  by (simp add: clean_amount_def)

theorem clean_amount_spec_witness:
  "py ''45.00'' \<noteq> [] \<and> isdigit (hd (py ''45.00'')) \<and>
   clean_amount (Some (40 # py ''45.00'' @ [41])) = fl_neg (clean_amount (Some (py ''45.00'')))"
proof -
  have 1: "py ''45.00'' \<noteq> []" by (simp add: py_def)
  have 2: "isdigit (hd (py ''45.00''))" by (simp add: str_defs)
  have 3: "\<forall>c \<in> set (py ''45.00''). \<not> isspace c \<and> c \<noteq> 40 \<and> c \<noteq> 41" by (simp add: str_defs)
  from clean_amount_spec 1 2 3
  have "clean_amount (Some (40 # py ''45.00'' @ [41])) = fl_neg (clean_amount (Some (py ''45.00'')))"
    by blast
  with 1 2 show ?thesis by blast
qed

section \<open>The end-to-end scenario\<close>

text \<open>
  C1. On the frame of the scenario, with the columns "Post Date", "Debit", "Credit" and
  "Memo", the code does not return the amounts -45.32 and 3500.00: "debit" is one of the
  single-amount synonyms, so the column "Debit" alone is the amount column and the
  debit/credit reconciliation is not reached. The rows come out with the amounts 45.32
  and 0.
\<close>

theorem end_to_end_scenario:
  "process_csv iso_to_datetime c1_table =
     Inr [\<lparr>date = (2024, 1, 5), description = py ''WHOLE FOODS'', amount = Finite 45.32\<rparr>,
          \<lparr>date = (2024, 1, 1), description = py ''PAYROLL'', amount = Finite 0\<rparr>]"
  by (simp add: process_csv_def c1_table_def frame_defs float_defs col_defs)


end
